theory Spec2Isabelle
  imports Complex_Main
begin

section \<open>Data model (types.ts)\<close>

datatype Player = B | W

datatype GameResult = B_WIN | W_WIN | DRAW

datatype RuleSetKind = standard

text \<open>A move \<open>{x, y, player, t?}\<close>; the fields are positional here.\<close>

datatype Move = Move int int Player "int option"

datatype GameMode =
    human_vs_ai Player
  | ai_vs_ai string string
  | human_vs_human

record GameSnapshot =
  boardSize :: int
  board :: "Player option list"
  ruleSet :: RuleSetKind
  toMove :: Player
  result :: "GameResult option"
  moves :: "Move list"
  mode :: GameMode
  canHumanMove :: bool

definition emptyBoard :: "int \<Rightarrow> Player option list" where
  "emptyBoard sz = replicate (nat (sz * sz)) None"

definition defaultGameMode :: GameMode where
  "defaultGameMode = human_vs_ai B"

section \<open>The game session hook (useGame)\<close>

definition defaultSnapshot :: GameSnapshot where
  "defaultSnapshot =
     \<lparr> boardSize = 15, board = emptyBoard 15, ruleSet = standard, toMove = B,
       result = None, moves = [], mode = defaultGameMode, canHumanMove = True \<rparr>"

text \<open>
  The commands that \<open>useGame\<close> passes to \<open>invoke\<close>, with their arguments.
\<close>

datatype Cmd =
    get_state
  | new_game "GameMode option"
  | make_move int int
  | ai_move
  | save_game string
  | load_game string
  | export_training string

text \<open>
  The engine behind \<open>invoke\<close> is external.  It is a parameter of the model: a function
  from the history of the commands invoked so far (oldest first, the current one last) to
  the outcome of the current one, \<open>Inl err\<close> when the promise rejects with \<open>err\<close>
  (already passed through \<open>String\<close>) and \<open>Inr snapshot\<close> when it resolves.
\<close>

type_synonym Engine = "Cmd list \<Rightarrow> string + GameSnapshot"

text \<open>
  The state of the hook: the four \<open>useState\<close> cells, and three observation fields
  that record what the hook did to its collaborators: the commands handed to \<open>invoke\<close>,
  the number of \<open>playStoneSound\<close> calls and the number of \<open>onRatingsChanged\<close> calls.
\<close>

record GameHook =
  game :: GameSnapshot
  busy :: bool
  error :: "string option"
  canRetryAi :: bool
  invoked :: "Cmd list"
  sounds :: nat
  ratingsChanged :: nat

definition initialGameHook :: GameHook where
  "initialGameHook =
     \<lparr> game = defaultSnapshot, busy = False, error = None, canRetryAi = False,
       invoked = [], sounds = 0, ratingsChanged = 0 \<rparr>"

text \<open>
  \<open>call\<close>: outside Tauri nothing is invoked and a fixed message is set; otherwise the
  command is invoked, a resolved promise clears the error, a rejected one stores it and
  marks it retryable exactly for \<open>ai_move\<close>.  The first component is the returned value
  (\<open>None\<close> for \<open>null\<close>).
\<close>

definition call :: "bool \<Rightarrow> Engine \<Rightarrow> Cmd \<Rightarrow> GameHook \<Rightarrow> GameSnapshot option \<times> GameHook" where
  "call isTauri eng cmd s =
     (if \<not> isTauri then
        (None, s\<lparr>error := Some ''Run via Tauri to enable game commands.'', canRetryAi := False\<rparr>)
      else
        (case eng (invoked s @ [cmd]) of
           Inr res \<Rightarrow>
             (Some res, s\<lparr>invoked := invoked s @ [cmd], error := None, canRetryAi := False\<rparr>)
         | Inl err \<Rightarrow>
             (None, s\<lparr>invoked := invoked s @ [cmd], error := Some err,
                       canRetryAi := (cmd = ai_move)\<rparr>)))"

definition playStoneSound :: "GameHook \<Rightarrow> GameHook" where
  "playStoneSound s = s\<lparr>sounds := Suc (sounds s)\<rparr>"

text \<open>
  \<open>await onRatingsChanged?.()\<close>: the callback is optional; the flag says whether the
  caller passed one.
\<close>

definition notifyRatings :: "bool \<Rightarrow> GameHook \<Rightarrow> GameHook" where
  "notifyRatings onRatingsChanged s =
     (if onRatingsChanged then s\<lparr>ratingsChanged := Suc (ratingsChanged s)\<rparr> else s)"

text \<open>
  \<open>game.board[index]\<close>: a read outside the array is \<open>undefined\<close>, which is falsy like
  the \<open>null\<close> of an empty cell.
\<close>

definition cellAt :: "Player option list \<Rightarrow> int \<Rightarrow> Player option" where
  "cellAt b i = (if 0 \<le> i \<and> i < int (length b) then b ! nat i else None)"

definition isHumanVsAi :: "GameMode \<Rightarrow> bool" where
  "isHumanVsAi m = (case m of human_vs_ai c \<Rightarrow> True | _ \<Rightarrow> False)"

definition isAiVsAiMode :: "GameMode \<Rightarrow> bool" where
  "isAiVsAiMode m = (case m of ai_vs_ai b w \<Rightarrow> True | _ \<Rightarrow> False)"

text \<open>
  The automatic reply of \<open>makeMove\<close>, after \<open>make_move\<close> resolved with \<open>snapshot\<close>
  and the snapshot was stored.
\<close>

definition afterHumanMove :: "bool \<Rightarrow> Engine \<Rightarrow> bool \<Rightarrow> bool \<Rightarrow> GameSnapshot \<Rightarrow> GameHook \<Rightarrow> GameHook" where
  "afterHumanMove isTauri eng onRatingsChanged autoTriggerAi snapshot s =
     (if result snapshot = None \<and> autoTriggerAi \<and> isHumanVsAi (mode snapshot)
         \<and> \<not> canHumanMove snapshot then
        (case call isTauri eng ai_move s of
           (Some aiSnapshot, s') \<Rightarrow>
             (let s'' = playStoneSound (s'\<lparr>game := aiSnapshot\<rparr>)
              in if result aiSnapshot \<noteq> None then notifyRatings onRatingsChanged s'' else s'')
         | (None, s') \<Rightarrow> s')
      else if result snapshot \<noteq> None then notifyRatings onRatingsChanged s
      else s)"

text \<open>
  \<open>makeMove(x, y, onRatingsChanged, autoTriggerAi = true)\<close>, one invocation run from
  its first statement to its last on the state of the render that created the callback.
\<close>

definition makeMove :: "bool \<Rightarrow> Engine \<Rightarrow> int \<Rightarrow> int \<Rightarrow> bool \<Rightarrow> bool \<Rightarrow> GameHook \<Rightarrow> GameHook" where
  "makeMove isTauri eng x y onRatingsChanged autoTriggerAi s =
     (if busy s \<or> result (game s) \<noteq> None then s
      else if \<not> canHumanMove (game s) then s
      else if cellAt (board (game s)) (y * boardSize (game s) + x) \<noteq> None then s
      else
        (case call isTauri eng (make_move x y) (s\<lparr>busy := True\<rparr>) of
           (Some snapshot, s') \<Rightarrow>
             (afterHumanMove isTauri eng onRatingsChanged autoTriggerAi snapshot
                (playStoneSound (s'\<lparr>game := snapshot\<rparr>)))\<lparr>busy := False\<rparr>
         | (None, s') \<Rightarrow> s'\<lparr>busy := False\<rparr>))"


definition clearError :: "GameHook \<Rightarrow> GameHook" where
  "clearError s = s\<lparr>error := None, canRetryAi := False\<rparr>"

text \<open>The preconditions that \<open>makeMove\<close> checks before it invokes anything.\<close>

definition movePreconditions :: "int \<Rightarrow> int \<Rightarrow> GameHook \<Rightarrow> bool" where
  "movePreconditions x y s =
     (\<not> busy s \<and> result (game s) = None \<and> canHumanMove (game s)
      \<and> cellAt (board (game s)) (y * boardSize (game s) + x) = None)"

text \<open>The condition under which the automatic reply is owed, as the specification has it.\<close>

definition replyOwed :: "GameSnapshot \<Rightarrow> bool" where
  "replyOwed snapshot =
     (result snapshot = None \<and> isHumanVsAi (mode snapshot) \<and> \<not> canHumanMove snapshot)"

subsection \<open>Concrete snapshots and engines\<close>

text \<open>The game after black's stone at (7, 7), white (the engine) to move.\<close>

definition afterBlack :: GameSnapshot where
  "afterBlack =
     defaultSnapshot\<lparr> board := (emptyBoard 15)[112 := Some B], toMove := W,
                      moves := [Move 7 7 B None], canHumanMove := False \<rparr>"

text \<open>An engine that accepts every human move and whose AI search crashes.\<close>

definition crashingAi :: Engine where
  "crashingAi h = (if h \<noteq> [] \<and> last h = ai_move then Inl ''AI process exited''
                   else Inr afterBlack)"

text \<open>An engine that rejects everything.\<close>

definition rejecting :: Engine where
  "rejecting h = Inl ''illegal move''"

text \<open>An engine that accepts every command and answers with the same snapshot.\<close>

definition accepting :: Engine where
  "accepting h = Inr afterBlack"

text \<open>A hook whose snapshot has a stone at (7, 7) while the human may move.\<close>

definition occupiedHook :: GameHook where
  "occupiedHook = initialGameHook\<lparr> game := afterBlack\<lparr>canHumanMove := True\<rparr> \<rparr>"


section \<open>The auto-play scheduler (useAutoPlay)\<close>

datatype AutoPlaySpeed = slow | medium | fast

definition SPEED_INTERVALS :: "AutoPlaySpeed \<Rightarrow> nat" where
  "SPEED_INTERVALS v = (case v of slow \<Rightarrow> 2000 | medium \<Rightarrow> 1000 | fast \<Rightarrow> 500)"

text \<open>
  The options of one render.  \<open>onStep\<close> is a function; the hook only calls it and
  compares its identity in dependency lists, so it is a token here.
\<close>

record UseAutoPlayOptions =
  onStep :: nat
  isGameOver :: bool
  isAiVsAi :: bool

text \<open>
  A live \<open>window.setInterval\<close> timer: its handle, its period in milliseconds, and the
  \<open>isGameOver\<close> that the \<open>step\<close> callback behind it has captured.
\<close>

record Timer =
  handle :: nat
  interval :: nat
  capturedGameOver :: bool

text \<open>
  The values of one render that the dependency lists of the two effects compare:
  \<open>[isPlaying, isGameOver, isAiVsAi, speed, step, clearAutoPlay]\<close> for the playing
  effect, where \<open>step\<close> changes with \<open>[onStep, isGameOver]\<close> and \<open>clearAutoPlay\<close>
  never, and \<open>[isAiVsAi, clearAutoPlay]\<close> for the mode effect.
\<close>

record Deps =
  depIsPlaying :: bool
  depSpeed :: AutoPlaySpeed
  depOptions :: UseAutoPlayOptions

text \<open>
  The hook between two renders: the two state cells and the two refs; what React keeps
  for the effects (the dependencies of the last render, \<open>None\<close> before the first, and
  whether the last run of the playing effect returned its cleanup); the live timers of the
  window, the next handle \<open>setInterval\<close> will return, and the number of \<open>onStep\<close>
  calls made so far.
\<close>

record AutoPlay =
  isPlaying :: bool
  speed :: AutoPlaySpeed
  intervalRef :: "nat option"
  steppingRef :: bool
  lastDeps :: "Deps option"
  hasCleanup :: bool
  timers :: "Timer list"
  nextHandle :: nat
  onStepCalls :: nat

definition initialAutoPlay :: AutoPlay where
  "initialAutoPlay =
     \<lparr> isPlaying = False, speed = medium, intervalRef = None, steppingRef = False,
       lastDeps = None, hasCleanup = False, timers = [], nextHandle = 1, onStepCalls = 0 \<rparr>"

definition clearInterval :: "nat \<Rightarrow> Timer list \<Rightarrow> Timer list" where
  "clearInterval h ts = filter (\<lambda>t. handle t \<noteq> h) ts"

definition clearAutoPlay :: "AutoPlay \<Rightarrow> AutoPlay" where
  "clearAutoPlay s =
     (case intervalRef s of
        None \<Rightarrow> s
      | Some h \<Rightarrow> s\<lparr>timers := clearInterval h (timers s), intervalRef := None\<rparr>)"

text \<open>
  \<open>step\<close> up to its \<open>await\<close>: the latch and the captured \<open>isGameOver\<close> are
  checked, the latch is set and \<open>onStep\<close> is called.  \<open>stepSettled\<close> is its
  \<open>finally\<close> block, run when the promise of \<open>onStep\<close> settles.
\<close>

definition step :: "bool \<Rightarrow> AutoPlay \<Rightarrow> AutoPlay" where
  "step gameOver s =
     (if steppingRef s \<or> gameOver then s
      else s\<lparr>steppingRef := True, onStepCalls := Suc (onStepCalls s)\<rparr>)"

definition stepSettled :: "AutoPlay \<Rightarrow> AutoPlay" where
  "stepSettled s = s\<lparr>steppingRef := False\<rparr>"

definition start :: "UseAutoPlayOptions \<Rightarrow> AutoPlay \<Rightarrow> AutoPlay" where
  "start opts s = (if \<not> isAiVsAi opts \<or> isGameOver opts then s else s\<lparr>isPlaying := True\<rparr>)"

definition stop :: "AutoPlay \<Rightarrow> AutoPlay" where
  "stop s = clearAutoPlay (s\<lparr>isPlaying := False\<rparr>)"

definition setSpeed :: "AutoPlaySpeed \<Rightarrow> AutoPlay \<Rightarrow> AutoPlay" where
  "setSpeed v s = s\<lparr>speed := v\<rparr>"

text \<open>
  The body of the playing effect, run with the values \<open>d\<close> of its render.  A
  \<open>setIsPlaying(false)\<close> is written to the state cell; the running render keeps
  its own \<open>depIsPlaying d\<close>.
\<close>

definition playingEffect :: "Deps \<Rightarrow> AutoPlay \<Rightarrow> AutoPlay" where
  "playingEffect d s =
     (if \<not> depIsPlaying d \<or> isGameOver (depOptions d) \<or> \<not> isAiVsAi (depOptions d) then
        (let s1 = clearAutoPlay s;
             s2 = (if isGameOver (depOptions d) then s1\<lparr>isPlaying := False\<rparr> else s1)
         in s2\<lparr>hasCleanup := False\<rparr>)
      else
        (let s1 = step (isGameOver (depOptions d)) s;
             h = nextHandle s1
         in s1\<lparr>intervalRef := Some h,
                timers := timers s1 @
                  [\<lparr>handle = h, interval = SPEED_INTERVALS (depSpeed d),
                    capturedGameOver = isGameOver (depOptions d)\<rparr>],
                nextHandle := Suc h,
                hasCleanup := True\<rparr>))"

definition modeEffect :: "UseAutoPlayOptions \<Rightarrow> AutoPlay \<Rightarrow> AutoPlay" where
  "modeEffect opts s =
     (if \<not> isAiVsAi opts then clearAutoPlay (s\<lparr>isPlaying := False\<rparr>) else s)"

text \<open>
  One render of the hook with the options \<open>opts\<close> and the commit of its effects, as
  React runs them: an effect runs on the first render and whenever one of its
  dependencies differs from the last render's; the cleanup that the last run of an effect
  returned runs before its next run; the effects run in the order of their declaration.
\<close>

definition render :: "UseAutoPlayOptions \<Rightarrow> AutoPlay \<Rightarrow> AutoPlay" where
  "render opts s =
     (let d = \<lparr>depIsPlaying = isPlaying s, depSpeed = speed s, depOptions = opts\<rparr>;
          runPlaying = (case lastDeps s of None \<Rightarrow> True | Some d' \<Rightarrow> d' \<noteq> d);
          runMode = (case lastDeps s of None \<Rightarrow> True
                     | Some d' \<Rightarrow> isAiVsAi (depOptions d') \<noteq> isAiVsAi opts);
          s1 = (if runPlaying \<and> hasCleanup s then clearAutoPlay s else s);
          s2 = (if runPlaying then playingEffect d s1 else s1);
          s3 = (if runMode then modeEffect opts s2 else s2)
      in s3\<lparr>lastDeps := Some d\<rparr>)"

text \<open>
  A state cell that an effect changed makes React render again; the hook is at rest when
  a render leaves \<open>isPlaying\<close> as it found it.
\<close>

function settle :: "UseAutoPlayOptions \<Rightarrow> AutoPlay \<Rightarrow> AutoPlay" where
  "settle opts s =
     (if isPlaying (render opts s) = isPlaying s then render opts s
      else settle opts (render opts s))"
  by pat_completeness auto
termination
proof (relation "measure (\<lambda>(opts, s). if isPlaying s then 1 else 0)")
  show "wf (measure (\<lambda>(opts, s). if isPlaying s then 1 else 0))"
    by simp
next
  fix opts :: UseAutoPlayOptions and s :: AutoPlay
  assume a: "isPlaying (render opts s) \<noteq> isPlaying s"
  have "isPlaying (render opts s) \<longrightarrow> isPlaying s"
    by (simp add: render_def playingEffect_def modeEffect_def clearAutoPlay_def step_def
        Let_def split: option.splits)
  with a show "((opts, render opts s), (opts, s))
                 \<in> measure (\<lambda>(opts, s). if isPlaying s then 1 else 0)"
    by auto
qed

declare settle.simps [simp del]

text \<open>The callback of a timer: \<open>doStep\<close> of the render that set the timer up.\<close>

definition tick :: "nat \<Rightarrow> AutoPlay \<Rightarrow> AutoPlay" where
  "tick h s =
     (case find (\<lambda>t. handle t = h) (timers s) of
        None \<Rightarrow> s
      | Some t \<Rightarrow> step (capturedGameOver t) s)"

text \<open>The options that \<open>App\<close> passes: derived from the snapshot of the game hook.\<close>

definition appOptions :: "nat \<Rightarrow> GameSnapshot \<Rightarrow> UseAutoPlayOptions" where
  "appOptions f g =
     \<lparr> onStep = f, isGameOver = (result g \<noteq> None), isAiVsAi = isAiVsAiMode (mode g) \<rparr>"

text \<open>Every live timer is the one whose handle \<open>intervalRef\<close> holds.\<close>

definition timersTracked :: "AutoPlay \<Rightarrow> bool" where
  "timersTracked s =
     (case intervalRef s of
        None \<Rightarrow> timers s = []
      | Some h \<Rightarrow> map handle (timers s) = [h])"

subsection \<open>Concrete runs of the scheduler\<close>

text \<open>Watching two engines, the game running.\<close>

definition watchOptions :: UseAutoPlayOptions where
  "watchOptions = \<lparr> onStep = 0, isGameOver = False, isAiVsAi = True \<rparr>"

text \<open>The hook after its first render, after \<open>start\<close>, and after the first step settled.\<close>

definition mounted :: AutoPlay where
  "mounted = settle watchOptions initialAutoPlay"

definition playing :: AutoPlay where
  "playing = settle watchOptions (start watchOptions mounted)"

definition playingIdle :: AutoPlay where
  "playingIdle = stepSettled playing"


text \<open>A finished engine-vs-engine game.\<close>

definition finishedWatch :: GameSnapshot where
  "finishedWatch = defaultSnapshot\<lparr> result := Some B_WIN, mode := ai_vs_ai ''L3'' ''L5'' \<rparr>"

text \<open>
  The invariant of the timer bookkeeping: the live timers are tracked, and a tracked
  timer has its cleanup registered.
\<close>

definition tracked :: "AutoPlay \<Rightarrow> bool" where
  "tracked s = (timersTracked s \<and> (intervalRef s = None \<or> hasCleanup s))"

section \<open>The self-play tracker (useSelfPlay)\<close>

text \<open>
  JavaScript numbers are modelled exactly: the counts and the millisecond clock as
  integers, the quotients as rationals.  The rounding of IEEE doubles is not modelled.
\<close>

record SelfPlayProgress =
  completed :: int
  total' :: int
  percent :: rat

text \<open>A report \<open>{gamesPerPair, totalGames, completedGames, stopped}\<close>, positional.\<close>

datatype SelfPlayReport = SelfPlayReport int int int bool








text \<open>The two commands that the tracker passes to \<open>invoke\<close>.\<close>

datatype SelfPlayCmd =
    start_self_play int int bool "string list" int int
  | stop_self_play

text \<open>
  What \<open>invoke('start_self_play', ...)\<close> does: the promise rejects with an error, or
  resolves with a boolean or \<open>null\<close> (\<open>None\<close>).
\<close>

datatype StartOutcome = Rejected string | Resolved "bool option"

text \<open>
  The state of the tracker: the \<open>useState\<close> cells, the \<open>startRef\<close> ref, and the
  commands handed to \<open>invoke\<close>.  The cells \<open>busy\<close> and \<open>error\<close> carry the names
  under which \<open>App\<close> reads them.
\<close>

record SelfPlay =
  selfPlayBusy :: bool
  progress :: "SelfPlayProgress option"
  report :: "SelfPlayReport option"
  eta :: "string option"
  selfPlayError :: "string option"
  gamesPerPair :: int
  parallelism :: int
  minLevel :: int
  maxLevel :: int
  includeLlm :: bool
  llmIds :: "string list"
  startRef :: "int option"
  selfPlayInvoked :: "SelfPlayCmd list"

definition initialSelfPlay :: SelfPlay where
  "initialSelfPlay =
     \<lparr> selfPlayBusy = False, progress = None, report = None, eta = None, selfPlayError = None,
       gamesPerPair = 30, parallelism = 4, minLevel = 1, maxLevel = 12, includeLlm = False,
       llmIds = [], startRef = None, selfPlayInvoked = [] \<rparr>"


text \<open>The listeners of \<open>self_play_done\<close> (up to its \<open>await onComplete()\<close>) and \<open>self_play_error\<close>.\<close>

definition onDone :: "SelfPlayReport \<Rightarrow> SelfPlay \<Rightarrow> SelfPlay" where
  "onDone payload s =
     s\<lparr>report := Some payload, selfPlayBusy := False, progress := None, startRef := None,
       eta := None\<rparr>"

definition onError :: "string \<Rightarrow> SelfPlay \<Rightarrow> SelfPlay" where
  "onError payload s =
     s\<lparr>selfPlayError := Some payload, selfPlayBusy := False, progress := None,
       startRef := None, eta := None\<rparr>"

text \<open>\<open>start\<close> of the tracker; \<open>now\<close> is its \<open>Date.now()\<close>.\<close>

definition startSelfPlay :: "int \<Rightarrow> StartOutcome \<Rightarrow> SelfPlay \<Rightarrow> SelfPlay" where
  "startSelfPlay now outcome s =
     (if selfPlayBusy s then s
      else
        (let s1 = s\<lparr>selfPlayBusy := True, report := None, progress := None,
                     startRef := Some now, eta := None, selfPlayError := None,
                     selfPlayInvoked := selfPlayInvoked s @
                       [start_self_play (gamesPerPair s) (parallelism s) (includeLlm s)
                          (if includeLlm s then llmIds s else []) (minLevel s) (maxLevel s)]\<rparr>
         in case outcome of
              Resolved res \<Rightarrow>
                (if res = None then s1\<lparr>selfPlayBusy := False, startRef := None\<rparr> else s1)
            | Rejected err \<Rightarrow>
                s1\<lparr>selfPlayError := Some err, selfPlayBusy := False, startRef := None\<rparr>))"

text \<open>\<open>stop\<close> of the tracker; \<open>failure\<close> is the error of a rejected \<open>stop_self_play\<close>.\<close>

definition stopSelfPlay :: "string option \<Rightarrow> SelfPlay \<Rightarrow> SelfPlay" where
  "stopSelfPlay failure s =
     (if \<not> selfPlayBusy s then s
      else
        (let s1 = s\<lparr>selfPlayInvoked := selfPlayInvoked s @ [stop_self_play]\<rparr>
         in case failure of None \<Rightarrow> s1 | Some err \<Rightarrow> s1\<lparr>selfPlayError := Some err\<rparr>))"





section \<open>The application (App)\<close>

record App =
  gameHook :: GameHook
  selfPlay :: SelfPlay

definition initialApp :: App where
  "initialApp = \<lparr> gameHook = initialGameHook, selfPlay = initialSelfPlay \<rparr>"

text \<open>A \<open>string | null\<close> as a condition: \<open>null\<close> and the empty string are falsy.\<close>

definition truthy :: "string option \<Rightarrow> bool" where
  "truthy e = (case e of None \<Rightarrow> False | Some m \<Rightarrow> m \<noteq> [])"

text \<open>\<open>const error = gameError || selfPlay.error\<close>.\<close>

definition appError :: "App \<Rightarrow> string option" where
  "appError app =
     (if truthy (error (gameHook app)) then error (gameHook app)
      else selfPlayError (selfPlay app))"

text \<open>
  The error banner: absent when \<open>error\<close> is falsy, otherwise the message and whether
  the retry button is shown.
\<close>

definition errorBanner :: "App \<Rightarrow> (string \<times> bool) option" where
  "errorBanner app =
     (case appError app of
        None \<Rightarrow> None
      | Some m \<Rightarrow>
          if m = [] then None
          else Some (m, canRetryAi (gameHook app) \<and> result (game (gameHook app)) = None))"

text \<open>\<open>handleMove\<close>, and the arrival of a \<open>self_play_error\<close> event.\<close>

definition handleMove :: "bool \<Rightarrow> Engine \<Rightarrow> int \<Rightarrow> int \<Rightarrow> App \<Rightarrow> App" where
  "handleMove isTauri eng x y app =
     app\<lparr>gameHook := makeMove isTauri eng x y True True (gameHook app)\<rparr>"

definition selfPlayErrorEvent :: "string \<Rightarrow> App \<Rightarrow> App" where
  "selfPlayErrorEvent payload app = app\<lparr>selfPlay := onError payload (selfPlay app)\<rparr>"

subsection \<open>Concrete tracker states\<close>




text \<open>A rejected human move followed by a failure of the self-play job.\<close>

definition bothErrors :: App where
  "bothErrors = selfPlayErrorEvent ''worker crashed'' (handleMove True rejecting 7 7 initialApp)"

section \<open>Properties of the move pipeline\<close>

text \<open>
  C1. When the preconditions hold, \<open>make_move\<close> resolves with \<open>snapshot\<close>, the automatic
  reply is issued and \<open>ai_move\<close> rejects with \<open>err\<close>, the hook ends with the snapshot
  that \<open>make_move\<close> returned (the human move is kept), with \<open>err\<close> as the error and
  with \<open>canRetryAi\<close> true; the guard is cleared.
\<close>

theorem makeMove_ai_failure_keeps_human_move:
  assumes "movePreconditions x y s"
    and "eng (invoked s @ [make_move x y]) = Inr snapshot"
    and "replyOwed snapshot"
    and "eng (invoked s @ [make_move x y, ai_move]) = Inl err"
  shows "game (makeMove True eng x y cb True s) = snapshot
       \<and> canRetryAi (makeMove True eng x y cb True s)
       \<and> error (makeMove True eng x y cb True s) = Some err
       \<and> \<not> busy (makeMove True eng x y cb True s)"
  using assms
  by (simp add: makeMove_def movePreconditions_def replyOwed_def afterHumanMove_def
      call_def playStoneSound_def)

theorem makeMove_ai_failure_keeps_human_move_witness:
  "movePreconditions 7 7 initialGameHook
   \<and> crashingAi (invoked initialGameHook @ [make_move 7 7]) = Inr afterBlack
   \<and> replyOwed afterBlack
   \<and> crashingAi (invoked initialGameHook @ [make_move 7 7, ai_move]) = Inl ''AI process exited''
   \<and> game (makeMove True crashingAi 7 7 True True initialGameHook) = afterBlack
   \<and> canRetryAi (makeMove True crashingAi 7 7 True True initialGameHook)
   \<and> error (makeMove True crashingAi 7 7 True True initialGameHook) = Some ''AI process exited''
   \<and> \<not> busy (makeMove True crashingAi 7 7 True True initialGameHook)"
proof -
  have p: "movePreconditions 7 7 initialGameHook"
    by (simp add: movePreconditions_def initialGameHook_def defaultSnapshot_def cellAt_def
        emptyBoard_def)
  have m: "crashingAi (invoked initialGameHook @ [make_move 7 7]) = Inr afterBlack"
    by (simp add: crashingAi_def)
  have r: "replyOwed afterBlack"
    by (simp add: replyOwed_def afterBlack_def defaultSnapshot_def defaultGameMode_def
        isHumanVsAi_def)
  have a: "crashingAi (invoked initialGameHook @ [make_move 7 7, ai_move])
             = Inl ''AI process exited''"
    by (simp add: crashingAi_def)
  from makeMove_ai_failure_keeps_human_move
         [where x = 7 and y = 7 and s = initialGameHook and eng = crashingAi
            and snapshot = afterBlack and err = "''AI process exited''" and cb = True,
          OF p m r a]
       p m r a
  show ?thesis
    by simp
qed

text \<open>
  C2. When the preconditions hold and \<open>make_move\<close> fails (the promise rejects with
  \<open>err\<close>, or the hook runs outside Tauri), the snapshot after the invocation is the one
  before it, an error is surfaced and \<open>canRetryAi\<close> is false; the guard is cleared.
\<close>

theorem makeMove_failure_leaves_snapshot:
  assumes "movePreconditions x y s"
    and "\<not> isTauri \<or> eng (invoked s @ [make_move x y]) = Inl err"
  shows "game (makeMove isTauri eng x y cb auto s) = game s
       \<and> \<not> canRetryAi (makeMove isTauri eng x y cb auto s)
       \<and> error (makeMove isTauri eng x y cb auto s) =
           Some (if isTauri then err else ''Run via Tauri to enable game commands.'')
       \<and> \<not> busy (makeMove isTauri eng x y cb auto s)"
  using assms
  by (auto simp add: makeMove_def movePreconditions_def call_def)

theorem makeMove_failure_leaves_snapshot_witness:
  "movePreconditions 7 7 initialGameHook
   \<and> rejecting (invoked initialGameHook @ [make_move 7 7]) = Inl ''illegal move''
   \<and> game (makeMove True rejecting 7 7 True True initialGameHook) = defaultSnapshot
   \<and> \<not> canRetryAi (makeMove True rejecting 7 7 True True initialGameHook)
   \<and> error (makeMove True rejecting 7 7 True True initialGameHook) = Some ''illegal move''
   \<and> \<not> busy (makeMove True rejecting 7 7 True True initialGameHook)"
proof -
  have p: "movePreconditions 7 7 initialGameHook"
    by (simp add: movePreconditions_def initialGameHook_def defaultSnapshot_def cellAt_def
        emptyBoard_def)
  have r: "\<not> True \<or> rejecting (invoked initialGameHook @ [make_move 7 7]) = Inl ''illegal move''"
    by (simp add: rejecting_def)
  have g: "game initialGameHook = defaultSnapshot"
    by (simp add: initialGameHook_def)
  from makeMove_failure_leaves_snapshot
         [where x = 7 and y = 7 and s = initialGameHook and isTauri = True and eng = rejecting
            and err = "''illegal move''" and cb = True and auto = True, OF p r]
       p r g
  show ?thesis
    by simp
qed

text \<open>
  C3. When a precondition is violated (an operation is in flight, the snapshot has a
  result, the human may not move, or the target cell is occupied), \<open>makeMove\<close> returns
  the state it was given: nothing is invoked, the snapshot and the error are unchanged.
\<close>

theorem makeMove_precondition_noop:
  assumes "busy s \<or> result (game s) \<noteq> None \<or> \<not> canHumanMove (game s)
           \<or> cellAt (board (game s)) (y * boardSize (game s) + x) \<noteq> None"
  shows "makeMove isTauri eng x y cb auto s = s"
  using assms by (auto simp add: makeMove_def)

theorem makeMove_precondition_noop_witness:
  "cellAt (board (game occupiedHook)) (7 * boardSize (game occupiedHook) + 7) = Some B
   \<and> makeMove True accepting 7 7 True True occupiedHook = occupiedHook
   \<and> invoked (makeMove True accepting 7 7 True True occupiedHook) = []"
proof -
  have c: "cellAt (board (game occupiedHook)) (7 * boardSize (game occupiedHook) + 7) = Some B"
    by (simp add: occupiedHook_def initialGameHook_def afterBlack_def defaultSnapshot_def
        cellAt_def emptyBoard_def)
  then have "busy occupiedHook \<or> result (game occupiedHook) \<noteq> None
           \<or> \<not> canHumanMove (game occupiedHook)
           \<or> cellAt (board (game occupiedHook)) (7 * boardSize (game occupiedHook) + 7) \<noteq> None"
    by simp
  from makeMove_precondition_noop [OF this, of True accepting True True] c show ?thesis
    by (simp add: occupiedHook_def initialGameHook_def)
qed

text \<open>
  C4, as the code has it.  When the preconditions hold and \<open>make_move\<close> resolves with
  \<open>snapshot\<close>, the automatic \<open>ai_move\<close> is issued if and only if the caller left
  \<open>autoTriggerAi\<close> true and the new snapshot has no result, is in the human-vs-engine
  mode and has \<open>canHumanMove\<close> false.  Otherwise \<open>make_move\<close> is the only command
  invoked.
\<close>

theorem makeMove_auto_reply_iff:
  assumes "movePreconditions x y s"
    and "eng (invoked s @ [make_move x y]) = Inr snapshot"
  shows "invoked (makeMove True eng x y cb auto s) =
           (if auto \<and> replyOwed snapshot then invoked s @ [make_move x y, ai_move]
            else invoked s @ [make_move x y])"
  using assms
  by (auto simp add: makeMove_def movePreconditions_def replyOwed_def afterHumanMove_def
      call_def playStoneSound_def notifyRatings_def Let_def split: sum.splits)

theorem makeMove_auto_reply_iff_witness:
  "movePreconditions 7 7 initialGameHook
   \<and> accepting (invoked initialGameHook @ [make_move 7 7]) = Inr afterBlack
   \<and> replyOwed afterBlack
   \<and> invoked (makeMove True accepting 7 7 True True initialGameHook) = [make_move 7 7, ai_move]"
proof -
  have p: "movePreconditions 7 7 initialGameHook"
    by (simp add: movePreconditions_def initialGameHook_def defaultSnapshot_def cellAt_def
        emptyBoard_def)
  have m: "accepting (invoked initialGameHook @ [make_move 7 7]) = Inr afterBlack"
    by (simp add: accepting_def)
  have r: "replyOwed afterBlack"
    by (simp add: replyOwed_def afterBlack_def defaultSnapshot_def defaultGameMode_def
        isHumanVsAi_def)
  have i: "invoked initialGameHook = []"
    by (simp add: initialGameHook_def)
  from makeMove_auto_reply_iff
         [where x = 7 and y = 7 and s = initialGameHook and eng = accepting
            and snapshot = afterBlack and cb = True and auto = True, OF p m]
       p m r i
  show ?thesis
    by simp
qed

text \<open>
  The claim C4 as the specification states it fails when the caller passes
  \<open>autoTriggerAi = false\<close>: \<open>make_move\<close> resolves, the reply is owed, and no
  \<open>ai_move\<close> is invoked.
\<close>

theorem makeMove_auto_reply_counterexample:
  "movePreconditions 7 7 initialGameHook
   \<and> accepting (invoked initialGameHook @ [make_move 7 7]) = Inr afterBlack
   \<and> replyOwed afterBlack
   \<and> invoked (makeMove True accepting 7 7 True False initialGameHook) = [make_move 7 7]
   \<and> \<not> (ai_move \<in> set (invoked (makeMove True accepting 7 7 True False initialGameHook))
          \<longleftrightarrow> replyOwed afterBlack)"
proof -
  have p: "movePreconditions 7 7 initialGameHook"
    by (simp add: movePreconditions_def initialGameHook_def defaultSnapshot_def cellAt_def
        emptyBoard_def)
  have m: "accepting (invoked initialGameHook @ [make_move 7 7]) = Inr afterBlack"
    by (simp add: accepting_def)
  have r: "replyOwed afterBlack"
    by (simp add: replyOwed_def afterBlack_def defaultSnapshot_def defaultGameMode_def
        isHumanVsAi_def)
  have i: "invoked (makeMove True accepting 7 7 True False initialGameHook) = [make_move 7 7]"
    using p m
    by (simp add: makeMove_def movePreconditions_def afterHumanMove_def call_def
        playStoneSound_def initialGameHook_def afterBlack_def defaultSnapshot_def)
  from p m r i show ?thesis by simp
qed



section \<open>Properties of the auto-play scheduler\<close>

lemma clearAutoPlay_tracked:
  "timersTracked s \<Longrightarrow> timers (clearAutoPlay s) = [] \<and> intervalRef (clearAutoPlay s) = None"
  by (auto simp add: timersTracked_def clearAutoPlay_def clearInterval_def split: option.splits)

lemma settle_done: "isPlaying (render opts s) = isPlaying s \<Longrightarrow> settle opts s = render opts s"
  by (simp add: settle.simps)

lemma settle_again:
  "isPlaying (render opts s) \<noteq> isPlaying s \<Longrightarrow> settle opts s = settle opts (render opts s)"
  by (subst settle.simps) simp

lemma render_stopped:
  assumes "\<not> isPlaying s" and "intervalRef s = None" and "timers s = []"
  shows "\<not> isPlaying (render opts s) \<and> intervalRef (render opts s) = None
       \<and> timers (render opts s) = []"
  using assms
  by (simp add: render_def playingEffect_def modeEffect_def clearAutoPlay_def
        Let_def split: option.splits)

lemma settle_stopped:
  assumes "\<not> isPlaying s" and "intervalRef s = None" and "timers s = []"
  shows "\<not> isPlaying (settle opts s) \<and> intervalRef (settle opts s) = None
       \<and> timers (settle opts s) = []"
proof -
  from render_stopped [OF assms] have r: "\<not> isPlaying (render opts s)"
    "intervalRef (render opts s) = None" "timers (render opts s) = []"
    by simp_all
  with assms(1) have "settle opts s = render opts s"
    by (simp add: settle_done)
  with r show ?thesis by simp
qed

lemma render_condition_false:
  assumes "lastDeps s = Some d"
    and "\<not> isGameOver (depOptions d) \<and> isAiVsAi (depOptions d)"
    and "isGameOver opts \<or> \<not> isAiVsAi opts"
    and "timersTracked s"
  shows "\<not> isPlaying (render opts s) \<and> intervalRef (render opts s) = None
       \<and> timers (render opts s) = []"
proof -
  let ?d = "\<lparr>depIsPlaying = isPlaying s, depSpeed = speed s, depOptions = opts\<rparr>"
  from assms(2,3) have ne: "d \<noteq> ?d"
    by auto
  let ?s1 = "if hasCleanup s then clearAutoPlay s else s"
  have t1: "timersTracked ?s1"
    using assms(4) clearAutoPlay_tracked [of s] by (simp add: timersTracked_def)
  let ?s2 = "playingEffect ?d ?s1"
  from assms(3) have early: "\<not> depIsPlaying ?d \<or> isGameOver (depOptions ?d) \<or> \<not> isAiVsAi (depOptions ?d)"
    by auto
  have s2: "intervalRef ?s2 = None \<and> timers ?s2 = []
            \<and> (isGameOver opts \<longrightarrow> \<not> isPlaying ?s2)"
    using early clearAutoPlay_tracked [OF t1]
    by (simp add: playingEffect_def Let_def)
  have r: "render opts s =
             (if isAiVsAi (depOptions d) \<noteq> isAiVsAi opts then modeEffect opts ?s2 else ?s2)
               \<lparr>lastDeps := Some ?d\<rparr>"
    using assms(1) ne by (simp add: render_def Let_def)
  show ?thesis
  proof (cases "isAiVsAi opts")
    case True
    with assms(3) have "isGameOver opts" by simp
    with s2 r True assms(2) show ?thesis
      by (simp add: modeEffect_def)
  next
    case False
    with s2 r assms(2) show ?thesis
      by (simp add: modeEffect_def clearAutoPlay_def)
  qed
qed

text \<open>
  C5. When the last render had the governing condition true (engine-vs-engine mode, no
  result) and the hook is rendered with options in which the game is over or the mode is
  no longer engine-vs-engine, then, once React has come to rest, \<open>isPlaying\<close> is
  false, \<open>intervalRef\<close> is empty and no timer is live; \<open>stop\<close> is not involved.
\<close>

theorem governing_condition_forces_stop:
  assumes "lastDeps s = Some d"
    and "\<not> isGameOver (depOptions d) \<and> isAiVsAi (depOptions d)"
    and "isGameOver opts \<or> \<not> isAiVsAi opts"
    and "timersTracked s"
  shows "\<not> isPlaying (settle opts s)
       \<and> intervalRef (settle opts s) = None
       \<and> timers (settle opts s) = []"
proof -
  from render_condition_false [OF assms]
  have r: "\<not> isPlaying (render opts s)" "intervalRef (render opts s) = None"
    "timers (render opts s) = []"
    by simp_all
  show ?thesis
  proof (cases "isPlaying s")
    case False
    with r have "settle opts s = render opts s" by (simp add: settle_done)
    with r show ?thesis by simp
  next
    case True
    with r have "settle opts s = settle opts (render opts s)" by (simp add: settle_again)
    with settle_stopped [OF r] show ?thesis by simp
  qed
qed

theorem governing_condition_forces_stop_witness:
  "lastDeps playingIdle =
     Some \<lparr>depIsPlaying = True, depSpeed = medium, depOptions = watchOptions\<rparr>
   \<and> \<not> isGameOver watchOptions \<and> isAiVsAi watchOptions
   \<and> timersTracked playingIdle
   \<and> isPlaying playingIdle \<and> timers playingIdle \<noteq> []
   \<and> isGameOver (appOptions 0 finishedWatch)
   \<and> \<not> isPlaying (settle (appOptions 0 finishedWatch) playingIdle)
   \<and> intervalRef (settle (appOptions 0 finishedWatch) playingIdle) = None
   \<and> timers (settle (appOptions 0 finishedWatch) playingIdle) = []
   \<and> \<not> isAiVsAi (appOptions 0 defaultSnapshot)
   \<and> \<not> isPlaying (settle (appOptions 0 defaultSnapshot) playingIdle)
   \<and> intervalRef (settle (appOptions 0 defaultSnapshot) playingIdle) = None
   \<and> timers (settle (appOptions 0 defaultSnapshot) playingIdle) = []"
proof -
  let ?d = "\<lparr>depIsPlaying = True, depSpeed = medium, depOptions = watchOptions\<rparr>"
  have h1: "lastDeps playingIdle = Some ?d"
    by code_simp
  have h2: "\<not> isGameOver (depOptions ?d) \<and> isAiVsAi (depOptions ?d)"
    by code_simp
  have over: "isGameOver (appOptions 0 finishedWatch)"
    by code_simp
  then have h3: "isGameOver (appOptions 0 finishedWatch) \<or> \<not> isAiVsAi (appOptions 0 finishedWatch)"
    by simp
  have left: "\<not> isAiVsAi (appOptions 0 defaultSnapshot)"
    by code_simp
  then have h3': "isGameOver (appOptions 0 defaultSnapshot) \<or> \<not> isAiVsAi (appOptions 0 defaultSnapshot)"
    by simp
  have h4: "timersTracked playingIdle"
    by code_simp
  have v: "isPlaying playingIdle \<and> timers playingIdle \<noteq> []"
    by code_simp
  from governing_condition_forces_stop [OF h1 h2 h3 h4]
       governing_condition_forces_stop [OF h1 h2 h3' h4] h1 h2 h4 v over left
  show ?thesis by simp
qed

text \<open>The bookkeeping invariant holds initially and is kept by every operation of the hook.\<close>

lemma tracked_clearAutoPlay: "timersTracked s \<Longrightarrow> timersTracked (clearAutoPlay s)"
  by (auto simp add: timersTracked_def clearAutoPlay_def clearInterval_def split: option.splits)

lemma tracked_render: 
  assumes "tracked s" shows "tracked (render opts s)"
proof -
  from assms have t: "timersTracked s" and c: "intervalRef s = None \<or> hasCleanup s"
    by (simp_all add: tracked_def)
  show ?thesis
    using t c clearAutoPlay_tracked [OF t]
    by (auto simp add: tracked_def render_def playingEffect_def modeEffect_def Let_def step_def
        timersTracked_def clearAutoPlay_def clearInterval_def split: option.splits)
qed

lemma tracked_settle: "tracked s \<Longrightarrow> tracked (settle opts s)"
proof (induction opts s rule: settle.induct)
  case (1 opts s)
  show ?case
  proof (cases "isPlaying (render opts s) = isPlaying s")
    case True
    with 1(2) show ?thesis by (simp add: settle_done tracked_render)
  next
    case False
    with 1 show ?thesis by (simp add: settle_again tracked_render)
  qed
qed

lemma tracked_actions:
  "tracked initialAutoPlay"
  "tracked s \<Longrightarrow> tracked (start opts s)"
  "tracked s \<Longrightarrow> tracked (stop s)"
  "tracked s \<Longrightarrow> tracked (setSpeed v s)"
  "tracked s \<Longrightarrow> tracked (stepSettled s)"
  "tracked s \<Longrightarrow> tracked (tick h s)"
  by (auto simp add: tracked_def timersTracked_def initialAutoPlay_def start_def stop_def
      setSpeed_def stepSettled_def tick_def step_def clearAutoPlay_def clearInterval_def
      split: option.splits)

text \<open>
  C6, as the code has it.  When the speed changes while the scheduler is playing, the
  playing effect runs again: its cleanup clears the old timer, and its body calls
  \<open>doStep\<close> at once and sets a new timer with the interval of the new speed.  The
  immediate \<open>doStep\<close> calls \<open>onStep\<close> unless a step is still in flight.
\<close>

theorem speed_change_restarts_timer:
  assumes "isPlaying s"
    and "lastDeps s = Some \<lparr>depIsPlaying = True, depSpeed = speed s, depOptions = opts\<rparr>"
    and "\<not> isGameOver opts \<and> isAiVsAi opts"
    and "hasCleanup s"
    and "timersTracked s"
    and "v \<noteq> speed s"
  shows "isPlaying (settle opts (setSpeed v s))
       \<and> intervalRef (settle opts (setSpeed v s)) = Some (nextHandle s)
       \<and> timers (settle opts (setSpeed v s)) =
           [\<lparr>handle = nextHandle s, interval = SPEED_INTERVALS v, capturedGameOver = False\<rparr>]
       \<and> onStepCalls (settle opts (setSpeed v s)) =
           (if steppingRef s then onStepCalls s else Suc (onStepCalls s))"
proof -
  let ?s0 = "setSpeed v s"
  from assms(5) have "timersTracked ?s0"
    by (simp add: timersTracked_def setSpeed_def split: option.splits)
  then have c: "timers (clearAutoPlay ?s0) = [] \<and> intervalRef (clearAutoPlay ?s0) = None"
    by (rule clearAutoPlay_tracked)
  have o: "nextHandle (clearAutoPlay ?s0) = nextHandle s
         \<and> steppingRef (clearAutoPlay ?s0) = steppingRef s
         \<and> onStepCalls (clearAutoPlay ?s0) = onStepCalls s
         \<and> isPlaying (clearAutoPlay ?s0) = isPlaying s"
    by (simp add: clearAutoPlay_def setSpeed_def split: option.splits)
  have r: "render opts ?s0 =
             (playingEffect \<lparr>depIsPlaying = True, depSpeed = v, depOptions = opts\<rparr>
                (clearAutoPlay ?s0))
               \<lparr>lastDeps := Some \<lparr>depIsPlaying = True, depSpeed = v, depOptions = opts\<rparr>\<rparr>"
    using assms(1,2,4,6) by (simp add: render_def Let_def setSpeed_def)
  have p: "isPlaying (render opts ?s0)
       \<and> intervalRef (render opts ?s0) = Some (nextHandle s)
       \<and> timers (render opts ?s0) =
           [\<lparr>handle = nextHandle s, interval = SPEED_INTERVALS v, capturedGameOver = False\<rparr>]
       \<and> onStepCalls (render opts ?s0) =
           (if steppingRef s then onStepCalls s else Suc (onStepCalls s))"
    using assms(1,3) c o by (simp add: r playingEffect_def Let_def step_def)
  with assms(1) have "settle opts ?s0 = render opts ?s0"
    by (simp add: settle_done setSpeed_def)
  with p show ?thesis by simp
qed

theorem speed_change_restarts_timer_witness:
  "isPlaying playingIdle
   \<and> lastDeps playingIdle = Some \<lparr>depIsPlaying = True, depSpeed = speed playingIdle, depOptions = watchOptions\<rparr>
   \<and> \<not> isGameOver watchOptions \<and> isAiVsAi watchOptions
   \<and> hasCleanup playingIdle \<and> timersTracked playingIdle \<and> fast \<noteq> speed playingIdle
   \<and> \<not> steppingRef playingIdle \<and> onStepCalls playingIdle = 1 \<and> nextHandle playingIdle = 2
   \<and> intervalRef (settle watchOptions (setSpeed fast playingIdle)) = Some 2
   \<and> timers (settle watchOptions (setSpeed fast playingIdle)) =
           [\<lparr>handle = 2, interval = 500, capturedGameOver = False\<rparr>]
   \<and> onStepCalls (settle watchOptions (setSpeed fast playingIdle)) = 2"
proof -
  have h1: "isPlaying playingIdle" by code_simp
  have h2: "lastDeps playingIdle = Some \<lparr>depIsPlaying = True, depSpeed = speed playingIdle, depOptions = watchOptions\<rparr>"
    by code_simp
  have h3: "\<not> isGameOver watchOptions \<and> isAiVsAi watchOptions" by code_simp
  have h4: "hasCleanup playingIdle" by code_simp
  have h5: "timersTracked playingIdle" by code_simp
  have h6: "fast \<noteq> speed playingIdle" by code_simp
  have v: "\<not> steppingRef playingIdle \<and> onStepCalls playingIdle = 1 \<and> nextHandle playingIdle = 2"
    by code_simp
  from speed_change_restarts_timer [OF h1 h2 h3 h4 h5 h6] h1 h2 h3 h4 h5 h6 v
  show ?thesis by (simp add: SPEED_INTERVALS_def)
qed

text \<open>
  The claim C6 as the specification states it fails: in a playing scheduler whose first
  step has settled, changing the speed from medium to fast calls \<open>onStep\<close> a second
  time at once.
\<close>

theorem speed_change_fires_step_counterexample:
  "isPlaying playingIdle \<and> speed playingIdle = medium \<and> onStepCalls playingIdle = 1
   \<and> speed (settle watchOptions (setSpeed fast playingIdle)) = fast
   \<and> isPlaying (settle watchOptions (setSpeed fast playingIdle))
   \<and> onStepCalls (settle watchOptions (setSpeed fast playingIdle)) = 2"
  by code_simp

section \<open>Properties of the self-play tracker\<close>



text \<open>
  C8, as the code has it.  When \<open>start\<close> is not a no-op and \<open>start_self_play\<close> is
  rejected or resolves with \<open>null\<close>, the tracker ends with \<open>busy\<close> false, with the
  anchor timestamp reset to \<open>null\<close> and, after a rejection, with the error set to the
  message; the report, the progress and the estimate stay cleared, and nothing else
  differs from the state before the call.
\<close>

theorem start_failure_clears_busy:
  assumes "\<not> selfPlayBusy s"
    and "outcome = Rejected err \<or> outcome = Resolved None"
  shows "startSelfPlay now outcome s =
           s\<lparr> selfPlayBusy := False, report := None, progress := None, eta := None,
              startRef := None,
              selfPlayError := (case outcome of Rejected e \<Rightarrow> Some e | Resolved r \<Rightarrow> None),
              selfPlayInvoked := selfPlayInvoked s @
                [start_self_play (gamesPerPair s) (parallelism s) (includeLlm s)
                   (if includeLlm s then llmIds s else []) (minLevel s) (maxLevel s)] \<rparr>"
  using assms by (auto simp add: startSelfPlay_def Let_def)

theorem start_failure_clears_busy_witness:
  "\<not> selfPlayBusy initialSelfPlay
   \<and> startSelfPlay 1000 (Rejected ''engine unavailable'') initialSelfPlay =
       initialSelfPlay\<lparr> selfPlayError := Some ''engine unavailable'',
                        selfPlayInvoked := [start_self_play 30 4 False [] 1 12] \<rparr>"
proof -
  have b: "\<not> selfPlayBusy initialSelfPlay"
    by (simp add: initialSelfPlay_def)
  have o: "Rejected ''engine unavailable'' = Rejected ''engine unavailable''
           \<or> Rejected ''engine unavailable'' = Resolved None"
    by simp
  from start_failure_clears_busy [OF b o, of 1000] b show ?thesis
    by (simp add: initialSelfPlay_def)
qed

text \<open>
  The claim C8 as the specification states it fails: after a rejected
  \<open>start_self_play\<close> the tracker differs from the state it had when the call was
  issued in more than \<open>busy\<close>: the error is set and the anchor timestamp is reset.
\<close>

theorem start_failure_counterexample:
  "\<not> selfPlayBusy initialSelfPlay
   \<and> startSelfPlay 1000 (Resolved (Some True)) initialSelfPlay =
       initialSelfPlay\<lparr> selfPlayBusy := True, startRef := Some 1000,
                        selfPlayInvoked := [start_self_play 30 4 False [] 1 12] \<rparr>
   \<and> startSelfPlay 1000 (Rejected ''engine unavailable'') initialSelfPlay \<noteq>
       initialSelfPlay\<lparr> selfPlayBusy := False, startRef := Some 1000,
                        selfPlayInvoked := [start_self_play 30 4 False [] 1 12] \<rparr>
   \<and> selfPlayError (startSelfPlay 1000 (Rejected ''engine unavailable'') initialSelfPlay) =
       Some ''engine unavailable''
   \<and> startRef (startSelfPlay 1000 (Rejected ''engine unavailable'') initialSelfPlay) = None"
  by (simp add: startSelfPlay_def initialSelfPlay_def)

section \<open>Properties of the error banner\<close>

text \<open>
  C9, as the code has it.  The banner shows one message.  While the game hook holds a
  non-empty error, that error is the one shown, also after a self-play error is surfaced
  later; the self-play error is shown only while the game hook holds no error (or an
  empty one).
\<close>

theorem game_error_has_precedence:
  "(truthy (error (gameHook app)) \<longrightarrow>
      appError app = error (gameHook app)
      \<and> appError (selfPlayErrorEvent payload app) = error (gameHook app))
   \<and> (\<not> truthy (error (gameHook app)) \<longrightarrow>
      appError app = selfPlayError (selfPlay app)
      \<and> appError (selfPlayErrorEvent payload app) = Some payload)"
  by (simp add: appError_def selfPlayErrorEvent_def onError_def)

theorem game_error_has_precedence_witness:
  "truthy (error (gameHook (handleMove True rejecting 7 7 initialApp)))
   \<and> appError (handleMove True rejecting 7 7 initialApp) = Some ''illegal move''
   \<and> appError (selfPlayErrorEvent ''worker crashed'' (handleMove True rejecting 7 7 initialApp))
       = Some ''illegal move''
   \<and> \<not> truthy (error (gameHook initialApp))
   \<and> appError (selfPlayErrorEvent ''worker crashed'' initialApp) = Some ''worker crashed''"
proof -
  have e: "error (gameHook (handleMove True rejecting 7 7 initialApp)) = Some ''illegal move''"
    by (simp add: handleMove_def initialApp_def makeMove_def initialGameHook_def
        defaultSnapshot_def cellAt_def emptyBoard_def call_def rejecting_def)
  have n: "error (gameHook initialApp) = None"
    by (simp add: initialApp_def initialGameHook_def)
  from game_error_has_precedence [of "handleMove True rejecting 7 7 initialApp" "''worker crashed''"]
       game_error_has_precedence [of initialApp "''worker crashed''"] e n
  show ?thesis by (simp add: truthy_def)
qed

text \<open>
  The claim C9 as the specification states it fails: a human move is rejected, then the
  self-play job fails.  Both errors are present, the self-play error is the one surfaced
  last, and the banner shows the error of the rejected move.
\<close>

theorem last_write_wins_counterexample:
  "error (gameHook bothErrors) = Some ''illegal move''
   \<and> selfPlayError (selfPlay bothErrors) = Some ''worker crashed''
   \<and> appError bothErrors = Some ''illegal move''
   \<and> appError bothErrors \<noteq> Some ''worker crashed''
   \<and> errorBanner bothErrors = Some (''illegal move'', False)"
  by (simp add: bothErrors_def selfPlayErrorEvent_def handleMove_def initialApp_def onError_def
      appError_def errorBanner_def truthy_def makeMove_def initialGameHook_def
      defaultSnapshot_def cellAt_def emptyBoard_def call_def rejecting_def)

end
